theory Spec2Isabelle
  imports Main
begin

section \<open>Python text\<close>

text \<open>
  Python's \<open>str\<close> is a sequence of code points. It is modelled by \<open>string\<close>, one
  \<open>char\<close> for each code point below 256; text with larger code points is outside the model.
  The functions of this section are the built-in operations the module calls.
\<close>

datatype error = ValueError | TypeError string

text \<open>\<open>str.isdigit\<close>: non-empty and every character a digit. Below 256 the digits are
  \<open>0\<close> to \<open>9\<close> and the superscripts two, three and one (178, 179, 185).\<close>

definition char_isdecimal :: "char \<Rightarrow> bool" where
  "char_isdecimal c = (48 \<le> (of_char c :: nat) \<and> (of_char c :: nat) \<le> 57)"

definition char_isdigit :: "char \<Rightarrow> bool" where
  "char_isdigit c =
     (char_isdecimal c \<or> (of_char c :: nat) = 178 \<or> (of_char c :: nat) = 179
        \<or> (of_char c :: nat) = 185)"

definition isdigit :: "string \<Rightarrow> bool" where
  "isdigit s = (s \<noteq> [] \<and> list_all char_isdigit s)"

text \<open>\<open>str.split(sep)\<close> for a separator of one character: never an empty list.\<close>

fun str_split :: "char \<Rightarrow> string \<Rightarrow> string list" where
  "str_split sep [] = [[]]"
| "str_split sep (c # cs) =
     (if c = sep then [] # str_split sep cs
      else (case str_split sep cs of
              [] \<Rightarrow> [[c]]
            | p # ps \<Rightarrow> (c # p) # ps))"

text \<open>\<open>int(s)\<close> in base ten: surrounding white space is dropped, one sign may lead, and the
  digits are decimal, with single underscores allowed between them. The white space \<open>int\<close>
  drops is tab, line feed, vertical tab, form feed, carriage return and space, and, of the
  code points above 127, the next-line character (133) and the no-break space (160).\<close>

definition char_isspace :: "char \<Rightarrow> bool" where
  "char_isspace c =
     ((of_char c :: nat) \<in> {9, 10, 11, 12, 13, 32, 133, 160})"

definition strip :: "string \<Rightarrow> string" where
  "strip s = rev (dropWhile char_isspace (rev (dropWhile char_isspace s)))"

definition digit_value :: "char \<Rightarrow> nat" where
  "digit_value c = of_char c - 48"

fun int_digits :: "nat \<Rightarrow> string \<Rightarrow> nat option" where
  "int_digits acc [] = Some acc"
| "int_digits acc [c] =
     (if char_isdecimal c then Some (10 * acc + digit_value c) else None)"
| "int_digits acc (c # d # ds) =
     (if char_isdecimal c then int_digits (10 * acc + digit_value c) (d # ds)
      else if c = CHR ''_'' \<and> char_isdecimal d then int_digits (10 * acc + digit_value d) ds
      else None)"

definition int_literal :: "string \<Rightarrow> nat option" where
  "int_literal s =
     (case s of
        [] \<Rightarrow> None
      | c # cs \<Rightarrow> if char_isdecimal c then int_digits (digit_value c) cs else None)"

definition py_int :: "string \<Rightarrow> error + int" where
  "py_int s =
     (case strip s of
        [] \<Rightarrow> Inl ValueError
      | c # cs \<Rightarrow>
          if c = CHR ''-'' then
            (case int_literal cs of None \<Rightarrow> Inl ValueError | Some n \<Rightarrow> Inr (- int n))
          else if c = CHR ''+'' then
            (case int_literal cs of None \<Rightarrow> Inl ValueError | Some n \<Rightarrow> Inr (int n))
          else
            (case int_literal (c # cs) of None \<Rightarrow> Inl ValueError | Some n \<Rightarrow> Inr (int n)))"

text \<open>\<open>str(n)\<close> of an integer: decimal, with a minus sign below zero.\<close>

definition digit_char :: "nat \<Rightarrow> char" where
  "digit_char d = char_of (48 + d)"

fun str_nat :: "nat \<Rightarrow> string" where
  "str_nat n = (if n < 10 then [digit_char n] else str_nat (n div 10) @ [digit_char (n mod 10)])"

declare str_nat.simps [simp del]

definition str_int :: "int \<Rightarrow> string" where
  "str_int i = (if i < 0 then CHR ''-'' # str_nat (nat (- i)) else str_nat (nat i))"

text \<open>\<open>s.replace(old, new)\<close> for a non-empty \<open>old\<close>: the occurrences are replaced from the
  left, without overlap.\<close>

fun strip_prefix :: "string \<Rightarrow> string \<Rightarrow> string option" where
  "strip_prefix [] s = Some s"
| "strip_prefix (p # ps) [] = None"
| "strip_prefix (p # ps) (c # cs) = (if p = c then strip_prefix ps cs else None)"

lemma strip_prefix_length: "strip_prefix p s = Some r \<Longrightarrow> length s = length p + length r"
  by (induction p s rule: strip_prefix.induct) (auto split: if_splits)

function replace :: "string \<Rightarrow> string \<Rightarrow> string \<Rightarrow> string" where
  "replace old new [] = []"
| "replace old new (c # cs) =
     (case (if old = [] then None else strip_prefix old (c # cs)) of
        Some r \<Rightarrow> new @ replace old new r
      | None \<Rightarrow> c # replace old new cs)"
  by pat_completeness auto
termination
proof (relation "measure (\<lambda>(old, new, s). length s)")
  show "wf (measure (\<lambda>(old, new, s). length s))" by simp
next
  fix old new :: string and c cs r
  assume "(if old = [] then None else strip_prefix old (c # cs)) = Some r"
  then have "old \<noteq> []" and "strip_prefix old (c # cs) = Some r"
    by (auto split: if_splits)
  then have "length r < length (c # cs)"
    using strip_prefix_length [of old "c # cs" r] by (cases old) auto
  then show "((old, new, r), (old, new, c # cs)) \<in> measure (\<lambda>(old, new, s). length s)"
    by simp
next
  fix old new :: string and c cs
  show "((old, new, cs), (old, new, c # cs)) \<in> measure (\<lambda>(old, new, s). length s)"
    by simp
qed

section \<open>Data model\<close>

text \<open>
  The schema types of the \<open>api\<close> module are used by the code as given structures. Each is
  modelled with the fields the code reads or writes; what else an object carries is one
  uninterpreted string.
\<close>

type_synonym snowflake = int
type_synonym bytes = string

datatype File = File (file_filename: string) (file_content: bytes)

datatype AttachmentSend = AttachmentSend (send_filename: string) (send_description: "string option")

datatype Embed = Embed (embed_type: string) (embed_rest: string)

text \<open>\<open>Component\<close> is the union of the four component classes; \<open>DirectComponent\<close> is the
  part of it made of \<open>ActionRow\<close> and \<open>TextInput\<close>.\<close>

datatype Component =
    ActionRow "Component list"
  | Button string
  | SelectMenu string
  | TextInput string

text \<open>A field left \<open>UNSET\<close> is \<open>None\<close>.\<close>

datatype MessageReference =
  MessageReference (message_id: "snowflake option") (channel_id: "snowflake option")
    (guild_id: "snowflake option") (fail_if_not_exists: "bool option")

text \<open>A segment is its type tag with the data of that tag; \<open>segment_type\<close> reads the tag.
  The style of a timestamp is held by the value of the enumeration member.\<close>

datatype MessageSegment =
    AttachmentSegment (data_attachment: AttachmentSend) (data_file: "File option")
  | StickerSegment (data_id: snowflake)
  | EmbedSegment (data_embed: Embed)
  | ComponentSegment (data_component: Component)
  | CustomEmojiSegment string string "bool option"
  | MentionUserSegment snowflake
  | MentionRoleSegment snowflake
  | MentionChannelSegment snowflake
  | MentionEveryoneSegment
  | TimestampSegment int "string option"
  | TextSegment string
  | ReferenceSegment (data_reference: MessageReference)

type_synonym Message = "MessageSegment list"

fun segment_type :: "MessageSegment \<Rightarrow> string" where
  "segment_type (AttachmentSegment a f) = ''attachment''"
| "segment_type (StickerSegment i) = ''sticker''"
| "segment_type (EmbedSegment e) = ''embed''"
| "segment_type (ComponentSegment c) = ''component''"
| "segment_type (CustomEmojiSegment n i a) = ''custom_emoji''"
| "segment_type (MentionUserSegment i) = ''mention_user''"
| "segment_type (MentionRoleSegment i) = ''mention_role''"
| "segment_type (MentionChannelSegment i) = ''mention_channel''"
| "segment_type MentionEveryoneSegment = ''mention_everyone''"
| "segment_type (TimestampSegment t s) = ''timestamp''"
| "segment_type (TextSegment t) = ''text''"
| "segment_type (ReferenceSegment r) = ''reference''"

text \<open>The collaborators whose code is outside the module are parameters of the model:
  \<open>unescape\<close> of the \<open>utils\<close> module, the construction of a \<open>Snowflake\<close> from text, and the
  values of the members of the enumeration \<open>TimeStampStyle\<close>.\<close>

record api =
  unescape :: "string \<Rightarrow> string"
  Snowflake :: "string \<Rightarrow> error + snowflake"
  style_values :: "string list"

text \<open>Looking a member of an enumeration up by value raises \<open>ValueError\<close> when no member has
  the value.\<close>

definition TimeStampStyle :: "api \<Rightarrow> string \<Rightarrow> error + string" where
  "TimeStampStyle api v = (if v \<in> set (style_values api) then Inr v else Inl ValueError)"

section \<open>Segment factories\<close>

text \<open>The first argument of \<open>MessageSegment.attachment\<close> is a \<open>str\<close>, a \<open>File\<close>, an
  \<open>AttachmentSend\<close>, or an object of another type.\<close>

datatype attachment_source =
    SourceStr string
  | SourceFile File
  | SourceAttachmentSend AttachmentSend
  | SourceOther

definition MessageSegment_attachment ::
  "attachment_source \<Rightarrow> string option \<Rightarrow> bytes option \<Rightarrow> error + MessageSegment" where
  "MessageSegment_attachment file description content =
     (case (case file of
              SourceStr s \<Rightarrow> Inr (s, description, content)
            | SourceFile f \<Rightarrow> Inr (file_filename f, description, Some (file_content f))
            | SourceAttachmentSend a \<Rightarrow> Inr (send_filename a, send_description a, content)
            | SourceOther \<Rightarrow> Inl (TypeError ''file must be str, File or AttachmentSend''))
      of
        Inl e \<Rightarrow> Inl e
      | Inr (filename', description', content') \<Rightarrow>
          (case content' of
             None \<Rightarrow> Inr (AttachmentSegment (AttachmentSend filename' description') None)
           | Some b \<Rightarrow>
               Inr (AttachmentSegment (AttachmentSend filename' description')
                      (Some (File filename' b)))))"

definition MessageSegment_sticker :: "snowflake \<Rightarrow> MessageSegment" where
  "MessageSegment_sticker sticker_id = StickerSegment sticker_id"

definition MessageSegment_embed :: "Embed \<Rightarrow> MessageSegment" where
  "MessageSegment_embed embed' = EmbedSegment embed'"

definition MessageSegment_component :: "Component \<Rightarrow> MessageSegment" where
  "MessageSegment_component component =
     (let component' =
        (case component of
           Button b \<Rightarrow> ActionRow [component]
         | SelectMenu m \<Rightarrow> ActionRow [component]
         | _ \<Rightarrow> component)
      in ComponentSegment component')"

definition MessageSegment_custom_emoji :: "string \<Rightarrow> string \<Rightarrow> bool option \<Rightarrow> MessageSegment" where
  "MessageSegment_custom_emoji name emoji_id animated = CustomEmojiSegment name emoji_id animated"

definition MessageSegment_mention_user :: "snowflake \<Rightarrow> MessageSegment" where
  "MessageSegment_mention_user user_id = MentionUserSegment user_id"

definition MessageSegment_mention_role :: "snowflake \<Rightarrow> MessageSegment" where
  "MessageSegment_mention_role role_id = MentionRoleSegment role_id"

definition MessageSegment_mention_channel :: "snowflake \<Rightarrow> MessageSegment" where
  "MessageSegment_mention_channel channel_id' = MentionChannelSegment channel_id'"

definition MessageSegment_mention_everyone :: "MessageSegment" where
  "MessageSegment_mention_everyone = MentionEveryoneSegment"

definition MessageSegment_text :: "string \<Rightarrow> MessageSegment" where
  "MessageSegment_text content = TextSegment content"

text \<open>\<open>MessageSegment.timestamp\<close> on an integer; the \<open>datetime\<close> argument is not modelled.\<close>

definition MessageSegment_timestamp :: "int \<Rightarrow> string option \<Rightarrow> MessageSegment" where
  "MessageSegment_timestamp timestamp style = TimestampSegment timestamp style"

section \<open>Rendering\<close>

text \<open>\<open>__str__\<close> of each segment class. An identifier prints as the decimal text of its
  number, and a style as the value of the member. The type of a component prints as the
  number of the platform's discriminator; no statement below depends on these numbers.\<close>

fun component_type :: "Component \<Rightarrow> nat" where
  "component_type (ActionRow cs) = 1"
| "component_type (Button b) = 2"
| "component_type (SelectMenu m) = 3"
| "component_type (TextInput t) = 4"

fun str_segment :: "MessageSegment \<Rightarrow> string" where
  "str_segment (StickerSegment i) = ''<Sticker:'' @ str_int i @ ''>''"
| "str_segment (ComponentSegment c) = ''<Component:'' @ str_nat (component_type c) @ ''>''"
| "str_segment (CustomEmojiSegment name emoji_id animated) =
     (if animated = Some True then ''<a:'' @ name @ '':'' @ emoji_id @ ''>''
      else ''<:'' @ name @ '':'' @ emoji_id @ ''>'')"
| "str_segment (MentionUserSegment i) = ''<@'' @ str_int i @ ''>''"
| "str_segment (MentionChannelSegment i) = ''<#'' @ str_int i @ ''>''"
| "str_segment (MentionRoleSegment i) = ''<@&'' @ str_int i @ ''>''"
| "str_segment MentionEveryoneSegment = ''@everyone''"
| "str_segment (TimestampSegment t style) =
     ''<t:'' @ str_int t @ (case style of Some v \<Rightarrow> '':'' @ v | None \<Rightarrow> []) @ ''>''"
| "str_segment (TextSegment t) = t"
| "str_segment (EmbedSegment e) = ''<Embed:'' @ embed_type e @ ''>''"
| "str_segment (AttachmentSegment a f) = ''<Attachment:'' @ send_filename a @ ''>''"
| "str_segment (ReferenceSegment r) =
     ''<Reference:'' @ (case message_id r of Some i \<Rightarrow> str_int i | None \<Rightarrow> ''<UNSET>'') @ ''>''"

section \<open>The tokenizer\<close>

text \<open>
  \<open>Message._construct\<close> scans the text with the pattern
  \<^verbatim>\<open><(?P<type>(@!|@&|@|#|/|:|a:|t:))(?P<param>[^<]+?)>\<close>.
  The parameter is one character other than \<open><\<close>, then as few further such characters
  as reach a \<open>>\<close>: \<open>param_tail\<close> reads these further characters and the closing \<open>>\<close>.
  Each function returns what it matched together with the text left after the match.
\<close>

fun param_tail :: "string \<Rightarrow> (string \<times> string) option" where
  "param_tail [] = None"
| "param_tail (c # cs) =
     (if c = CHR ''>'' then Some ([], cs)
      else if c = CHR ''<'' then None
      else (case param_tail cs of None \<Rightarrow> None | Some (p, r) \<Rightarrow> Some (c # p, r)))"

fun match_param :: "string \<Rightarrow> (string \<times> string) option" where
  "match_param [] = None"
| "match_param (c # cs) =
     (if c = CHR ''<'' then None
      else (case param_tail cs of None \<Rightarrow> None | Some (p, r) \<Rightarrow> Some (c # p, r)))"

text \<open>The alternatives of the group \<open>type\<close> are tried in the order of the pattern; when the
  rest of the pattern fails after one of them, the next one is tried.\<close>

definition type_alternatives :: "string list" where
  "type_alternatives = [''@!'', ''@&'', ''@'', ''#'', ''/'', '':'', ''a:'', ''t:'']"

fun match_types :: "string list \<Rightarrow> string \<Rightarrow> (string \<times> string \<times> string) option" where
  "match_types [] s = None"
| "match_types (t # ts) s =
     (case strip_prefix t s of
        None \<Rightarrow> match_types ts s
      | Some r \<Rightarrow>
          (case match_param r of
             None \<Rightarrow> match_types ts s
           | Some (p, rest) \<Rightarrow> Some (t, p, rest)))"

fun match_at :: "string \<Rightarrow> (string \<times> string \<times> string) option" where
  "match_at [] = None"
| "match_at (c # cs) = (if c = CHR ''<'' then match_types type_alternatives cs else None)"

lemma param_tail_length: "param_tail s = Some (p, r) \<Longrightarrow> length r < length s"
  by (induction s arbitrary: p) (auto split: if_splits option.splits)

lemma match_param_length: "match_param s = Some (p, r) \<Longrightarrow> length r < length s"
  by (cases s) (auto split: if_splits option.splits dest: param_tail_length)

lemma match_types_length: "match_types ts s = Some (t, p, r) \<Longrightarrow> length r < length s"
proof (induction ts)
  case Nil
  then show ?case by simp
next
  case (Cons a ts)
  show ?case
  proof (cases "strip_prefix a s")
    case None
    with Cons show ?thesis by simp
  next
    case (Some q)
    then have q: "length q \<le> length s"
      using strip_prefix_length [of a s q] by simp
    show ?thesis
    proof (cases "match_param q")
      case None
      with Some Cons show ?thesis by simp
    next
      case (Some pr)
      with \<open>strip_prefix a s = Some q\<close> Cons.prems have "match_param q = Some (p, r)"
        by (cases pr) simp
      then show ?thesis
        using match_param_length [of q p r] q by simp
    qed
  qed
qed

lemma match_at_length: "match_at s = Some (t, p, r) \<Longrightarrow> length r < length s"
  by (cases s) (auto split: if_splits dest: match_types_length)

text \<open>\<open>re.finditer\<close>: the matches from left to right, each found at the first position at or
  after the end of the one before. A match is kept as the text between \<open>text_begin\<close> and its
  start, its group \<open>type\<close> and its group \<open>param\<close>; the second component of the result is the
  text after the last match, \<open>msg[text_begin:]\<close>.\<close>

function finditer :: "string \<Rightarrow> string \<Rightarrow> (string \<times> string \<times> string) list \<times> string" where
  "finditer pending [] = ([], pending)"
| "finditer pending (c # cs) =
     (case match_at (c # cs) of
        None \<Rightarrow> finditer (pending @ [c]) cs
      | Some (t, p, rest) \<Rightarrow>
          (case finditer [] rest of (ms, tail) \<Rightarrow> ((pending, t, p) # ms, tail)))"
  by pat_completeness auto
termination
proof (relation "measure (\<lambda>(pending, s). length s)")
  show "wf (measure (\<lambda>(pending, s :: string). length s))" by simp
next
  fix pending :: string and c cs
  show "((pending @ [c], cs), (pending, c # cs)) \<in> measure (\<lambda>(pending, s). length s)"
    by simp
next
  fix pending :: string and c cs x2 t y p rest
  assume "match_at (c # cs) = Some x2" "(t, y) = x2" "(p, rest) = y"
  then have "match_at (c # cs) = Some (t, p, rest)" by simp
  then have "length rest < length (c # cs)" by (rule match_at_length)
  then show "(([], rest), (pending, c # cs)) \<in> measure (\<lambda>(pending, s). length s)"
    by simp
qed

text \<open>\<open>embed.group()\<close>, the whole text of a match.\<close>

definition match_group :: "string \<Rightarrow> string \<Rightarrow> string" where
  "match_group t p = ''<'' @ t @ p @ ''>''"

text \<open>The segment a match yields, if any: the \<open>if\<close> chain of the loop body.\<close>

definition construct_match :: "api \<Rightarrow> string \<Rightarrow> string \<Rightarrow> error + Message" where
  "construct_match api t param =
     (if t = ''@!'' \<or> t = ''@'' then
        (case Snowflake api param of
           Inl e \<Rightarrow> Inl e
         | Inr i \<Rightarrow> Inr [MessageSegment_mention_user i])
      else if t = ''@&'' then
        (case Snowflake api param of
           Inl e \<Rightarrow> Inl e
         | Inr i \<Rightarrow> Inr [MessageSegment_mention_role i])
      else if t = ''#'' then
        (case Snowflake api param of
           Inl e \<Rightarrow> Inl e
         | Inr i \<Rightarrow> Inr [MessageSegment_mention_channel i])
      else if t = ''/'' then Inr []
      else if t = '':'' \<or> t = ''a:'' then
        (let cut = str_split CHR '':'' param in
         if length cut = 2 then
           Inr [MessageSegment_custom_emoji (cut ! 0) (cut ! 1) (Some (t = ''a:''))]
         else Inr [MessageSegment_text (unescape api (match_group t param))])
      else
        (let cut = str_split CHR '':'' param in
         if length cut = 2 \<and> isdigit (cut ! 0) then
           (case py_int (cut ! 0) of
              Inl e \<Rightarrow> Inl e
            | Inr n \<Rightarrow>
                (case TimeStampStyle api (cut ! 1) of
                   Inl e \<Rightarrow> Inl e
                 | Inr style \<Rightarrow> Inr [MessageSegment_timestamp n (Some style)]))
         else if isdigit (match_group t param) then
           (case py_int (match_group t param) of
              Inl e \<Rightarrow> Inl e
            | Inr n \<Rightarrow> Inr [MessageSegment_timestamp n None])
         else Inr [MessageSegment_text (unescape api (match_group t param))]))"

text \<open>A stretch of text outside the matches is yielded unescaped, when it is not empty.\<close>

definition construct_text :: "api \<Rightarrow> string \<Rightarrow> Message" where
  "construct_text api content =
     (if content = [] then [] else [MessageSegment_text (unescape api content)])"

fun construct_loop :: "api \<Rightarrow> (string \<times> string \<times> string) list \<Rightarrow> error + Message" where
  "construct_loop api [] = Inr []"
| "construct_loop api ((content, t, param) # ms) =
     (case construct_match api t param of
        Inl e \<Rightarrow> Inl e
      | Inr segs \<Rightarrow>
          (case construct_loop api ms of
             Inl e \<Rightarrow> Inl e
           | Inr later \<Rightarrow> Inr (construct_text api content @ segs @ later)))"

text \<open>The generator is run to its end: the result is the segments it yields, or the
  exception it raises.\<close>

definition Message_construct :: "api \<Rightarrow> string \<Rightarrow> error + Message" where
  "Message_construct api msg =
     (case finditer [] msg of
        (ms, content) \<Rightarrow>
          (case construct_loop api ms of
             Inl e \<Rightarrow> Inl e
           | Inr segs \<Rightarrow> Inr (segs @ construct_text api content)))"

section \<open>The message container\<close>

text \<open>
  \<open>Message\<close> derives from the message class of the bot framework, a list of segments. What
  the module uses of that class is modelled here from the framework: the constructor, \<open>+\<close>
  on either side, and the selection of the segments of one type. An operand is a \<open>str\<close>, a
  segment or a sequence of segments; the framework tokenizes a \<open>str\<close> operand.
\<close>

datatype operand =
    OfStr string
  | OfSegment MessageSegment
  | OfSegments "MessageSegment list"

definition BaseMessage_init :: "api \<Rightarrow> operand \<Rightarrow> error + Message" where
  "BaseMessage_init api message =
     (case message of
        OfStr s \<Rightarrow> Message_construct api s
      | OfSegment seg \<Rightarrow> Inr [seg]
      | OfSegments segs \<Rightarrow> Inr segs)"

definition BaseMessage_add :: "api \<Rightarrow> Message \<Rightarrow> operand \<Rightarrow> error + Message" where
  "BaseMessage_add api self other =
     (case other of
        OfStr s \<Rightarrow>
          (case Message_construct api s of Inl e \<Rightarrow> Inl e | Inr segs \<Rightarrow> Inr (self @ segs))
      | OfSegment seg \<Rightarrow> Inr (self @ [seg])
      | OfSegments segs \<Rightarrow> Inr (self @ segs))"

definition BaseMessage_radd :: "api \<Rightarrow> Message \<Rightarrow> operand \<Rightarrow> error + Message" where
  "BaseMessage_radd api self other =
     (case BaseMessage_init api other of
        Inl e \<Rightarrow> Inl e
      | Inr result \<Rightarrow> BaseMessage_add api result (OfSegments self))"

definition Message_getitem :: "Message \<Rightarrow> string \<Rightarrow> Message" where
  "Message_getitem self t = filter (\<lambda>seg. segment_type seg = t) self"

text \<open>The two operators of the module replace a \<open>str\<close> operand by a text segment and hand
  over to the framework.\<close>

definition Message_add :: "api \<Rightarrow> Message \<Rightarrow> operand \<Rightarrow> error + Message" where
  "Message_add api self other =
     BaseMessage_add api self
       (case other of OfStr s \<Rightarrow> OfSegment (MessageSegment_text s) | _ \<Rightarrow> other)"

definition Message_radd :: "api \<Rightarrow> Message \<Rightarrow> operand \<Rightarrow> error + Message" where
  "Message_radd api self other =
     BaseMessage_radd api self
       (case other of OfStr s \<Rightarrow> OfSegment (MessageSegment_text s) | _ \<Rightarrow> other)"

definition Message_extract_content :: "Message \<Rightarrow> string" where
  "Message_extract_content self =
     concat (map str_segment
       (filter (\<lambda>seg. segment_type seg \<in> set [''text'', ''custom_emoji'', ''mention_user'',
          ''mention_role'', ''mention_everyone'', ''mention_channel'', ''timestamp'']) self))"

section \<open>Inbound messages\<close>

text \<open>The fields of \<open>MessageGet\<close> that \<open>from_guild_message\<close> reads. The description of an
  inbound attachment is a \<open>str\<close> or a value of another type (\<open>None\<close> or \<open>UNSET\<close>); a missing list
  of components is the empty list.\<close>

datatype description = DescriptionStr string | DescriptionOther

datatype Attachment =
  Attachment (attachment_filename: string) (attachment_description: description)

record MessageGet =
  mention_everyone :: bool
  content :: string
  attachments :: "Attachment list"
  embeds :: "Embed list"
  components :: "Component list"

text \<open>\<open>msg.extend\<close> of a generator whose items may raise: the items in order, or the first
  exception. In \<open>from_guild_message\<close> the test \<open>isinstance(attachment.description, str)\<close> is
  the case distinction on the description.\<close>

fun extend :: "Message \<Rightarrow> (error + MessageSegment) list \<Rightarrow> error + Message" where
  "extend msg [] = Inr msg"
| "extend msg (x # xs) =
     (case x of Inl e \<Rightarrow> Inl e | Inr seg \<Rightarrow> extend (msg @ [seg]) xs)"

definition Message_from_guild_message :: "api \<Rightarrow> MessageGet \<Rightarrow> error + Message" where
  "Message_from_guild_message api message =
     (let msg0 = [];
          msg1 = (if mention_everyone message then msg0 @ [MessageSegment_mention_everyone]
                  else msg0)
      in case (if content message \<noteq> [] then
                 (case BaseMessage_init api (OfStr (content message)) of
                    Inl e \<Rightarrow> Inl e
                  | Inr tokens \<Rightarrow> extend msg1 (map Inr tokens))
               else Inr msg1) of
           Inl e \<Rightarrow> Inl e
         | Inr msg2 \<Rightarrow>
             (case (if attachments message \<noteq> [] then
                      extend msg2
                        (map (\<lambda>attachment.
                                MessageSegment_attachment
                                  (SourceAttachmentSend
                                     (AttachmentSend (attachment_filename attachment)
                                        (case attachment_description attachment of
                                           DescriptionStr d \<Rightarrow> Some d
                                         | DescriptionOther \<Rightarrow> None)))
                                  None None)
                           (attachments message))
                    else Inr msg2) of
                Inl e \<Rightarrow> Inl e
              | Inr msg3 \<Rightarrow>
                  (case (if embeds message \<noteq> [] then
                           extend msg3 (map (\<lambda>e. Inr (MessageSegment_embed e)) (embeds message))
                         else Inr msg3) of
                     Inl e \<Rightarrow> Inl e
                   | Inr msg4 \<Rightarrow>
                       (if components message \<noteq> [] then
                          extend msg4
                            (map (\<lambda>c. Inr (MessageSegment_component c)) (components message))
                        else Inr msg4))))"

section \<open>Outbound messages\<close>

text \<open>The values of the dictionary \<open>parse_message\<close> returns, one constructor for each key.\<close>

datatype send_value =
    Content string
  | Embeds "Embed list"
  | Reference MessageReference
  | Components "Component list"
  | StickerIds "snowflake list"
  | Files "File list"
  | Attachments "AttachmentSend list"

text \<open>\<open>xs or None\<close> on a list.\<close>

definition or_None :: "'a list \<Rightarrow> 'a list option" where
  "or_None xs = (if xs = [] then None else Some xs)"

text \<open>The comprehension that closes \<open>parse_message\<close>: the items whose value is not \<open>None\<close>.\<close>

fun without_None :: "(string \<times> 'v option) list \<Rightarrow> (string \<times> 'v) list" where
  "without_None [] = []"
| "without_None ((k, None) # kvs) = without_None kvs"
| "without_None ((k, Some v) # kvs) = (k, v) # without_None kvs"

definition parse_message :: "operand \<Rightarrow> (string \<rightharpoonup> send_value)" where
  "parse_message message =
     (let message =
            (case message of
               OfStr s \<Rightarrow> [MessageSegment_text s]
             | OfSegment seg \<Rightarrow> [seg]
             | OfSegments segs \<Rightarrow> segs);
          content = or_None (Message_extract_content message);
          embeds =
            map_option (map data_embed) (or_None (Message_getitem message ''embed''));
          reference =
            map_option (\<lambda>reference. data_reference (last reference))
              (or_None (Message_getitem message ''reference''));
          components =
            map_option (map data_component) (or_None (Message_getitem message ''component''));
          sticker_ids =
            map_option (map data_id) (or_None (Message_getitem message ''sticker''));
          attachments_segment = or_None (Message_getitem message ''attachment'');
          attachments = map_option (map data_attachment) attachments_segment;
          files = map_option (List.map_filter data_file) attachments_segment
      in map_of (without_None
           [(''content'', map_option Content content),
            (''embeds'', map_option Embeds embeds),
            (''message_reference'', map_option Reference reference),
            (''components'', map_option Components components),
            (''sticker_ids'', map_option StickerIds sticker_ids),
            (''files'', map_option Files files),
            (''attachments'', map_option Attachments attachments)]))"

section \<open>An instance of the collaborators\<close>

text \<open>
  The model is run on concrete inputs with this instance: markup characters escaped as
  character entities, identifiers read from text as Python's \<open>int\<close> reads them, and the
  style letters of the platform's timestamp markup. The statements proved for every \<open>api\<close>
  do not depend on it.
\<close>

definition std_unescape :: "string \<Rightarrow> string" where
  "std_unescape s =
     replace ''&amp;'' ''&'' (replace ''&gt;'' ''>'' (replace ''&lt;'' ''<'' s))"

definition std_api :: api where
  "std_api =
     \<lparr>unescape = std_unescape, Snowflake = py_int,
      style_values = [''t'', ''T'', ''d'', ''D'', ''f'', ''F'', ''R'']\<rparr>"

section \<open>Timestamps in the tokenizer\<close>

text \<open>The whole text of a match starts with \<open><\<close>, so it is never a string of digits: the
  branch of the loop that would yield a timestamp without a style is not reachable.\<close>

lemma match_group_not_digit: "\<not> isdigit (match_group t p)"
  by (simp add: isdigit_def match_group_def char_isdigit_def char_isdecimal_def)

lemma timestamp_always_styled:
  "construct_match api ''t:'' p \<noteq> Inr [TimestampSegment n None]"
  by (auto simp: construct_match_def Let_def match_group_not_digit MessageSegment_timestamp_def
        MessageSegment_text_def split: sum.splits)

text \<open>
  Claim C1. The tokenizer is to map \<open><t:SECONDS>\<close> to a timestamp segment with those seconds
  and no style, \<open><t:SECONDS:STYLE>\<close> to a timestamp with that style, and a match whose first
  part is not numeric to literal text. On \<open><t:123>\<close> the code yields a text segment and no
  timestamp: it tests \<open>isdigit\<close> on the whole match, not on the parameter.
\<close>

theorem construct_timestamp_without_style_is_text:
  "Message_construct std_api ''<t:123>'' = Inr [TextSegment ''<t:123>'']"
  by code_simp

section \<open>Exceptions of the tokenizer\<close>

text \<open>A digit that is not decimal passes \<open>isdigit\<close> and is refused by \<open>int\<close>, whatever the
  collaborators do.\<close>

lemma construct_superscript_digit_raises:
  "Message_construct api
     [CHR ''<'', CHR ''t'', CHR '':'', CHR 0xB2, CHR '':'', CHR ''R'', CHR ''>''] = Inl ValueError"
  by (simp add: Message_construct_def type_alternatives_def construct_match_def isdigit_def
      char_isdigit_def char_isdecimal_def py_int_def strip_def char_isspace_def int_literal_def)

text \<open>
  Claim C2. Tokenization is never to raise: malformed markup is to come out as one text
  segment equal to the matched text. The code has this fallback for emoji and for timestamps
  with a part that is not numeric, and none for mentions: on \<open><@abc>\<close> the construction of the
  identifier raises. It also raises on a timestamp whose seconds are the superscript two
  (code point 178), and on a timestamp whose style is no member of the enumeration.
\<close>

theorem construct_raises_on_malformed_markup:
  "Message_construct std_api ''<@abc>'' = Inl ValueError
   \<and> Message_construct std_api
       [CHR ''<'', CHR ''t'', CHR '':'', CHR 0xB2, CHR '':'', CHR ''R'', CHR ''>''] = Inl ValueError
   \<and> Message_construct std_api ''<t:1:zz>'' = Inl ValueError"
  by code_simp

section \<open>Concatenation with text\<close>

text \<open>
  Claim C7. For every string \<open>s\<close> and message \<open>m\<close>, \<open>m + s\<close> and \<open>s + m\<close> take \<open>s\<close> whole as
  one text segment, without tokenizing it, and put it after, respectively before, the
  segments of \<open>m\<close>; so \<open>Message() + "hello"\<close> is \<open>[TextSegment("hello")]\<close> and
  \<open>"hello" + Message([TextSegment("!")])\<close> is \<open>[TextSegment("hello"), TextSegment("!")]\<close>.
\<close>

theorem add_str_is_one_text_segment:
  "Message_add api m (OfStr s) = Inr (m @ [TextSegment s])
   \<and> Message_radd api m (OfStr s) = Inr (TextSegment s # m)
   \<and> Message_add api [] (OfStr ''hello'') = Inr [TextSegment ''hello'']
   \<and> Message_radd api [TextSegment ''!''] (OfStr ''hello'')
       = Inr [TextSegment ''hello'', TextSegment ''!'']"
  by (simp add: Message_add_def Message_radd_def BaseMessage_add_def BaseMessage_radd_def
      BaseMessage_init_def MessageSegment_text_def)

section \<open>The component and attachment factories\<close>

text \<open>
  Claim C9. A button or a select menu passed to the component factory is wrapped into an
  action row holding it alone before it becomes the data of the segment, so the segment the
  factory returns never holds a button or a select menu itself.
\<close>

theorem component_wraps_bare_element:
  "(component = Button b \<or> component = SelectMenu b \<longrightarrow>
      MessageSegment_component component = ComponentSegment (ActionRow [component]))
   \<and> MessageSegment_component component \<noteq> ComponentSegment (Button x)
   \<and> MessageSegment_component component \<noteq> ComponentSegment (SelectMenu x)"
  by (cases component) (auto simp: MessageSegment_component_def)

theorem component_wraps_bare_element_witness:
  "MessageSegment_component (Button ''ok'') = ComponentSegment (ActionRow [Button ''ok''])
   \<and> MessageSegment_component (SelectMenu ''pick'') \<noteq> ComponentSegment (SelectMenu ''pick'')"
  using component_wraps_bare_element [of "Button ''ok''" "''ok''" "''ok''"]
    component_wraps_bare_element [of "SelectMenu ''pick''" "''pick''" "''pick''"]
  by simp

text \<open>
  Claim C10. In the attachment factory, a \<open>File\<close> source makes the argument \<open>content\<close>
  irrelevant (the bytes of the file are used), an \<open>AttachmentSend\<close> source makes the argument
  \<open>description\<close> irrelevant (the description of the object is used), and a source of any
  other type raises an error that names the accepted types.
\<close>

theorem attachment_ignores_arguments_by_source:
  "MessageSegment_attachment (SourceFile f) description content' =
     Inr (AttachmentSegment (AttachmentSend (file_filename f) description)
            (Some (File (file_filename f) (file_content f))))
   \<and> MessageSegment_attachment (SourceAttachmentSend a) description content' =
     Inr (AttachmentSegment (AttachmentSend (send_filename a) (send_description a))
            (map_option (File (send_filename a)) content'))
   \<and> MessageSegment_attachment SourceOther description content' =
     Inl (TypeError ''file must be str, File or AttachmentSend'')"
  by (cases content') (simp_all add: MessageSegment_attachment_def)

section \<open>The flattened text of a message\<close>

text \<open>
  Claim C6. \<open>extract_content\<close> is the concatenation, in order, of the rendered forms of the
  segments of type text, custom emoji, the four mentions and timestamp; attachment, sticker,
  embed, component and reference segments add nothing. For the segments
  \<open>[mention_everyone, text("hi "), mention_user(42)]\<close> it is \<open>"@everyone" + "hi " + "<@42>"\<close>.
\<close>

theorem extract_content_skips_opaque_segments:
  "Message_extract_content [] = []
   \<and> Message_extract_content (seg # m) =
       (case seg of
          AttachmentSegment a f \<Rightarrow> []
        | StickerSegment i \<Rightarrow> []
        | EmbedSegment e \<Rightarrow> []
        | ComponentSegment c \<Rightarrow> []
        | ReferenceSegment r \<Rightarrow> []
        | _ \<Rightarrow> str_segment seg) @ Message_extract_content m
   \<and> Message_extract_content [MentionEveryoneSegment, TextSegment ''hi '', MentionUserSegment 42]
       = ''@everyone'' @ ''hi '' @ ''<@42>''"
proof (intro conjI)
  show "Message_extract_content [] = []"
    by (simp add: Message_extract_content_def)
  show "Message_extract_content (seg # m) =
       (case seg of
          AttachmentSegment a f \<Rightarrow> []
        | StickerSegment i \<Rightarrow> []
        | EmbedSegment e \<Rightarrow> []
        | ComponentSegment c \<Rightarrow> []
        | ReferenceSegment r \<Rightarrow> []
        | _ \<Rightarrow> str_segment seg) @ Message_extract_content m"
    by (cases seg) (simp_all add: Message_extract_content_def)
  show "Message_extract_content [MentionEveryoneSegment, TextSegment ''hi '', MentionUserSegment 42]
       = ''@everyone'' @ ''hi '' @ ''<@42>''"
    by code_simp
qed

section \<open>The outbound dictionary\<close>

lemma map_of_without_None_Cons:
  "map_of (without_None ((k', v) # kvs)) k =
     (if k = k' \<and> v \<noteq> None then v else map_of (without_None kvs) k)"
  by (cases v) auto

lemma getitem_Cons:
  "Message_getitem (seg # m) t =
     (if segment_type seg = t then seg # Message_getitem m t else Message_getitem m t)"
  by (simp add: Message_getitem_def)

lemma getitem_append: "Message_getitem (a @ b) t = Message_getitem a t @ Message_getitem b t"
  by (simp add: Message_getitem_def)

lemma getitem_reference_none:
  "(\<forall>r. ReferenceSegment r \<notin> set m) \<Longrightarrow> Message_getitem m ''reference'' = []"
proof (induction m)
  case Nil
  then show ?case by (simp add: Message_getitem_def)
next
  case (Cons seg m)
  then show ?case by (cases seg) (auto simp: Message_getitem_def)
qed

lemma parse_message_reference:
  "parse_message (OfSegments m) ''message_reference'' =
     map_option (\<lambda>rs. Reference (data_reference (last rs)))
       (or_None (Message_getitem m ''reference''))"
  by (simp add: parse_message_def Let_def map_of_without_None_Cons option.map_comp comp_def
      del: without_None.simps(2,3))

text \<open>
  Claim C4. When a message holds a reference segment, \<open>parse_message\<close> sets the key
  \<open>message_reference\<close> to the reference of the last such segment, whatever stands before
  it; when the message holds none, the key is absent.
\<close>

theorem message_reference_is_last_reference:
  "((\<forall>r'. ReferenceSegment r' \<notin> set post) \<longrightarrow>
      parse_message (OfSegments (pre @ ReferenceSegment r # post)) ''message_reference''
        = Some (Reference r))
   \<and> ((\<forall>r'. ReferenceSegment r' \<notin> set m) \<longrightarrow>
      parse_message (OfSegments m) ''message_reference'' = None)"
  by (auto simp: parse_message_reference getitem_append getitem_Cons getitem_reference_none
        or_None_def)

theorem message_reference_is_last_reference_witness:
  "parse_message
     (OfSegments [ReferenceSegment (MessageReference (Some 1) None None None), TextSegment ''a'',
        ReferenceSegment (MessageReference (Some 2) None None None), TextSegment ''b''])
     ''message_reference''
     = Some (Reference (MessageReference (Some 2) None None None))
   \<and> parse_message (OfSegments [TextSegment ''a'']) ''message_reference'' = None"
  using message_reference_is_last_reference
    [of "[TextSegment ''b'']"
        "[ReferenceSegment (MessageReference (Some 1) None None None), TextSegment ''a'']"
        "MessageReference (Some 2) None None None" "[TextSegment ''a'']"]
  by simp

lemma attachments_of_getitem:
  "map data_attachment (Message_getitem m ''attachment'') = [a. AttachmentSegment a f \<leftarrow> m]"
proof (induction m)
  case Nil
  then show ?case by (simp add: Message_getitem_def)
next
  case (Cons seg m)
  then show ?case by (cases seg) (simp_all add: Message_getitem_def)
qed

lemma files_of_getitem:
  "List.map_filter data_file (Message_getitem m ''attachment'')
     = [f. AttachmentSegment a (Some f) \<leftarrow> m]"
proof (induction m)
  case Nil
  then show ?case by (simp add: Message_getitem_def List.map_filter_simps)
next
  case (Cons seg m)
  then show ?case
    by (cases seg)
       (auto simp add: Message_getitem_def List.map_filter_simps split: option.splits)
qed

lemma getitem_attachment_empty:
  "(Message_getitem m ''attachment'' = []) = ([a. AttachmentSegment a f \<leftarrow> m] = [])"
  using attachments_of_getitem [of m] by (metis map_is_Nil_conv)

text \<open>What the code computes for the keys \<open>attachments\<close> and \<open>files\<close>: the metadata of
  every attachment segment and the files of the attachment segments that have one, each in
  the order of the segments; both are computed only when the message has an attachment
  segment.\<close>

lemma attachments_and_files_in_order:
  "parse_message (OfSegments m) ''attachments'' =
     (if [a. AttachmentSegment a f \<leftarrow> m] = [] then None
      else Some (Attachments [a. AttachmentSegment a f \<leftarrow> m]))
   \<and> parse_message (OfSegments m) ''files'' =
     (if [a. AttachmentSegment a f \<leftarrow> m] = [] then None
      else Some (Files [f. AttachmentSegment a (Some f) \<leftarrow> m]))"
  using attachments_of_getitem [of m] files_of_getitem [of m] getitem_attachment_empty [of m]
  by (simp add: parse_message_def Let_def or_None_def map_of_without_None_Cons
      del: without_None.simps(2,3))

lemma attachments_and_files_in_order_example:
  "parse_message
     (OfSegments [AttachmentSegment (AttachmentSend ''a'' None) (Some (File ''a'' ''xx'')),
        AttachmentSegment (AttachmentSend ''b'' None) None,
        AttachmentSegment (AttachmentSend ''c'' None) (Some (File ''c'' ''zz''))]) ''attachments''
     = Some (Attachments [AttachmentSend ''a'' None, AttachmentSend ''b'' None,
          AttachmentSend ''c'' None])
   \<and> parse_message
     (OfSegments [AttachmentSegment (AttachmentSend ''a'' None) (Some (File ''a'' ''xx'')),
        AttachmentSegment (AttachmentSend ''b'' None) None,
        AttachmentSegment (AttachmentSend ''c'' None) (Some (File ''c'' ''zz''))]) ''files''
     = Some (Files [File ''a'' ''xx'', File ''c'' ''zz''])"
  using attachments_and_files_in_order
    [of "[AttachmentSegment (AttachmentSend ''a'' None) (Some (File ''a'' ''xx'')),
          AttachmentSegment (AttachmentSend ''b'' None) None,
          AttachmentSegment (AttachmentSend ''c'' None) (Some (File ''c'' ''zz''))]"]
  by simp

text \<open>
  Claim C5. \<open>attachments\<close> is to be the list of the metadata of every attachment segment and
  \<open>files\<close> the list of the files of the attachment segments that have one, in order, and
  \<open>files\<close> is to be absent when no attachment segment carries bytes. The code drops every
  other key that would be empty; the list of files alone is kept when it is empty: for a
  message of one attachment segment without a file, the key \<open>files\<close> is present and holds the
  empty list, while the keys \<open>embeds\<close> and \<open>content\<close> of the same message are absent.
\<close>

theorem files_present_without_bytes:
  "parse_message (OfSegments [AttachmentSegment (AttachmentSend ''a.png'' None) None]) ''files''
     = Some (Files [])
   \<and> parse_message (OfSegments [AttachmentSegment (AttachmentSend ''a.png'' None) None]) ''embeds''
     = None
   \<and> parse_message (OfSegments [AttachmentSegment (AttachmentSend ''a.png'' None) None]) ''content''
     = None"
  by code_simp

section \<open>The order of an inbound message\<close>

lemma construct_empty: "Message_construct api [] = Inr []"
  by (simp add: Message_construct_def construct_text_def)

lemma extend_Inr: "extend msg (map Inr segs) = Inr (msg @ segs)"
  by (induction segs arbitrary: msg) simp_all

lemma extend_map_Inr: "extend msg (map (\<lambda>x. Inr (f x)) xs) = Inr (msg @ map f xs)"
  by (induction xs arbitrary: msg) simp_all

lemma attachment_of_send:
  "MessageSegment_attachment (SourceAttachmentSend (AttachmentSend n d)) None None
     = Inr (AttachmentSegment (AttachmentSend n d) None)"
  by (simp add: MessageSegment_attachment_def)

text \<open>
  The order in which \<open>from_guild_message\<close> builds the message, on every event for which the
  tokenizer returns: a \<open>mention_everyone\<close> segment first exactly when the flag of the event is
  set, then the segments of the tokenized content when the content is not empty, then one
  attachment segment for each attachment, with its file name, its description when that is
  a \<open>str\<close> and no description otherwise, and no file, then one embed segment for each embed,
  then one component segment for each component, made by the component factory. An
  exception of the tokenizer on the content leaves \<open>from_guild_message\<close> by the same
  exception.
\<close>

lemma from_guild_message_order:
  "Message_from_guild_message api message =
     (case Message_construct api (content message) of
        Inl e \<Rightarrow> Inl e
      | Inr tokens \<Rightarrow>
          Inr ((if mention_everyone message then [MentionEveryoneSegment] else [])
               @ (if content message = [] then [] else tokens)
               @ map (\<lambda>a. AttachmentSegment
                             (AttachmentSend (attachment_filename a)
                                (case attachment_description a of
                                   DescriptionStr d \<Rightarrow> Some d
                                 | DescriptionOther \<Rightarrow> None))
                             None)
                   (attachments message)
               @ map EmbedSegment (embeds message)
               @ map (\<lambda>c. ComponentSegment
                             (case c of
                                Button b \<Rightarrow> ActionRow [c]
                              | SelectMenu s \<Rightarrow> ActionRow [c]
                              | _ \<Rightarrow> c))
                   (components message)))"
proof -
  have att: "map (\<lambda>attachment.
                MessageSegment_attachment
                  (SourceAttachmentSend
                     (AttachmentSend (attachment_filename attachment)
                        (case attachment_description attachment of
                           DescriptionStr d \<Rightarrow> Some d
                         | DescriptionOther \<Rightarrow> None)))
                  None None) xs
           = map (\<lambda>a. Inr (AttachmentSegment
                             (AttachmentSend (attachment_filename a)
                                (case attachment_description a of
                                   DescriptionStr d \<Rightarrow> Some d
                                 | DescriptionOther \<Rightarrow> None))
                             None)) xs"
    for xs
    by (simp add: attachment_of_send)
  have comp: "MessageSegment_component c =
                ComponentSegment
                  (case c of
                     Button b \<Rightarrow> ActionRow [c]
                   | SelectMenu s \<Rightarrow> ActionRow [c]
                   | _ \<Rightarrow> c)" for c
    by (cases c) (simp_all add: MessageSegment_component_def)
  show ?thesis
    unfolding Message_from_guild_message_def Let_def att
    by (cases "Message_construct api (content message)")
       (auto simp: construct_empty extend_Inr extend_map_Inr BaseMessage_init_def comp
          MessageSegment_embed_def MessageSegment_mention_everyone_def)
qed

lemma from_guild_message_order_example:
  "Message_from_guild_message std_api
     \<lparr>mention_everyone = True, content = ''hi <@42>'',
      attachments = [Attachment ''a.png'' (DescriptionStr ''a cat''),
                     Attachment ''b.png'' DescriptionOther],
      embeds = [Embed ''rich'' ''x''],
      components = [Button ''ok'', TextInput ''in'']\<rparr>
   = Inr [MentionEveryoneSegment, TextSegment ''hi '', MentionUserSegment 42,
          AttachmentSegment (AttachmentSend ''a.png'' (Some ''a cat'')) None,
          AttachmentSegment (AttachmentSend ''b.png'' None) None,
          EmbedSegment (Embed ''rich'' ''x''),
          ComponentSegment (ActionRow [Button ''ok'']), ComponentSegment (TextInput ''in'')]"
proof -
  have "Message_construct std_api ''hi <@42>'' = Inr [TextSegment ''hi '', MentionUserSegment 42]"
    by code_simp
  then show ?thesis
    using from_guild_message_order
      [of std_api "\<lparr>mention_everyone = True, content = ''hi <@42>'',
        attachments = [Attachment ''a.png'' (DescriptionStr ''a cat''),
                       Attachment ''b.png'' DescriptionOther],
        embeds = [Embed ''rich'' ''x''],
        components = [Button ''ok'', TextInput ''in'']\<rparr>"]
    by simp
qed

text \<open>Whatever the collaborators do, an event whose content is a timestamp with the
  superscript two for seconds builds no message.\<close>

lemma from_guild_message_superscript_digit_raises:
  "content message =
     [CHR ''<'', CHR ''t'', CHR '':'', CHR 0xB2, CHR '':'', CHR ''R'', CHR ''>''] \<Longrightarrow>
   Message_from_guild_message api message = Inl ValueError"
  by (simp add: from_guild_message_order construct_superscript_digit_raises)

text \<open>
  Claim C8. For every inbound event, \<open>from_guild_message\<close> is to build the message in a fixed
  order: the \<open>mention_everyone\<close> segment, the tokenized content, the attachments, the embeds,
  the components. On the event whose content is \<open>hello <@abc>\<close>, with no attachment, embed or
  component, the code builds no message: the tokenizer raises on the mention (claim C2), and
  \<open>from_guild_message\<close> raises with it.
\<close>

theorem from_guild_message_raises_with_tokenizer:
  "Message_from_guild_message std_api
     \<lparr>mention_everyone = False, content = ''hello <@abc>'', attachments = [], embeds = [],
      components = []\<rparr>
   = Inl ValueError"
  by code_simp

section \<open>Rendering and tokenizing\<close>

text \<open>
  The segments whose rendered form the tokenizer reads back, and the messages made of them.
  \<open>plain_text t\<close> says that no match of the pattern starts at a position of \<open>t\<close>.
\<close>

definition markup_free :: "string \<Rightarrow> bool" where
  "markup_free s = (CHR ''<'' \<notin> set s \<and> CHR ''>'' \<notin> set s \<and> CHR '':'' \<notin> set s)"

fun plain_text :: "string \<Rightarrow> bool" where
  "plain_text [] = True"
| "plain_text (c # cs) = (match_at (c # cs) = None \<and> plain_text cs)"

fun roundtrip_segment :: "api \<Rightarrow> MessageSegment \<Rightarrow> bool" where
  "roundtrip_segment api (TextSegment t) = (t \<noteq> [] \<and> plain_text t \<and> unescape api t = t)"
| "roundtrip_segment api (MentionUserSegment i) = (Snowflake api (str_int i) = Inr i)"
| "roundtrip_segment api (MentionRoleSegment i) = (Snowflake api (str_int i) = Inr i)"
| "roundtrip_segment api (MentionChannelSegment i) = (Snowflake api (str_int i) = Inr i)"
| "roundtrip_segment api (CustomEmojiSegment name emoji_id animated) =
     (animated \<noteq> None \<and> markup_free name \<and> markup_free emoji_id)"
| "roundtrip_segment api (TimestampSegment t style) =
     (0 \<le> t \<and> (case style of None \<Rightarrow> False
               | Some v \<Rightarrow> v \<noteq> [] \<and> v \<in> set (style_values api) \<and> markup_free v))"
| "roundtrip_segment api _ = False"

fun no_adjacent_text :: "Message \<Rightarrow> bool" where
  "no_adjacent_text (TextSegment a # TextSegment b # m) = False"
| "no_adjacent_text (seg # m) = no_adjacent_text m"
| "no_adjacent_text [] = True"

text \<open>The tokenizer started with text already pending before the input; \<open>Message_construct\<close>
  is the case of no pending text.\<close>

definition tokens_from :: "api \<Rightarrow> string \<Rightarrow> string \<Rightarrow> error + Message" where
  "tokens_from api pending s =
     (case finditer pending s of
        (ms, tail) \<Rightarrow>
          (case construct_loop api ms of
             Inl e \<Rightarrow> Inl e
           | Inr segs \<Rightarrow> Inr (segs @ construct_text api tail)))"

lemma construct_tokens_from: "Message_construct api s = tokens_from api [] s"
  by (simp add: Message_construct_def tokens_from_def)

subsection \<open>Decimal text\<close>

lemma digit_char_props:
  "d < 10 \<Longrightarrow> char_isdecimal (digit_char d) \<and> digit_value (digit_char d) = d"
  by (simp add: digit_char_def char_isdecimal_def digit_value_def)

lemma str_nat_decimal: "list_all char_isdecimal (str_nat n) \<and> str_nat n \<noteq> []"
proof (induction n rule: str_nat.induct)
  case (1 n)
  show ?case
  proof (cases "n < 10")
    case True
    then show ?thesis by (simp add: str_nat.simps [of n] digit_char_props)
  next
    case False
    then have "list_all char_isdecimal (str_nat (n div 10))" using 1 by simp
    moreover have "char_isdecimal (digit_char (n mod 10))" by (simp add: digit_char_props)
    ultimately show ?thesis using False by (simp add: str_nat.simps [of n])
  qed
qed

lemma int_digits_snoc:
  "list_all char_isdecimal cs \<Longrightarrow> char_isdecimal d \<Longrightarrow>
   int_digits acc (cs @ [d]) = map_option (\<lambda>v. 10 * v + digit_value d) (int_digits acc cs)"
  by (induction acc cs rule: int_digits.induct) simp_all

lemma int_literal_str_nat: "int_literal (str_nat n) = Some n"
proof (induction n rule: str_nat.induct)
  case (1 n)
  show ?case
  proof (cases "n < 10")
    case True
    then show ?thesis
      by (simp add: str_nat.simps [of n] int_literal_def digit_char_props)
  next
    case False
    then have ih: "int_literal (str_nat (n div 10)) = Some (n div 10)" using 1 by simp
    obtain c cs where s: "str_nat (n div 10) = c # cs"
      using str_nat_decimal [of "n div 10"] by (cases "str_nat (n div 10)") auto
    have dec: "char_isdecimal c" "list_all char_isdecimal cs"
      using str_nat_decimal [of "n div 10"] s by auto
    have d: "char_isdecimal (digit_char (n mod 10))" "digit_value (digit_char (n mod 10)) = n mod 10"
      by (simp_all add: digit_char_props)
    from ih s dec have "int_digits (digit_value c) cs = Some (n div 10)"
      by (simp add: int_literal_def)
    then have "int_digits (digit_value c) (cs @ [digit_char (n mod 10)]) = Some n"
      using int_digits_snoc [OF dec(2) d(1), of "digit_value c"] d(2) by simp
    then show ?thesis
      using False s dec by (simp add: str_nat.simps [of n] int_literal_def)
  qed
qed

lemma decimal_not_space: "char_isdecimal c \<Longrightarrow> \<not> char_isspace c"
  by (auto simp: char_isdecimal_def char_isspace_def)

lemma dropWhile_first: "s \<noteq> [] \<Longrightarrow> \<not> P (hd s) \<Longrightarrow> dropWhile P s = s"
  by (cases s) simp_all

lemma strip_decimal: "list_all char_isdecimal s \<Longrightarrow> strip s = s"
proof (cases "s = []")
  case True
  then show ?thesis by (simp add: strip_def)
next
  case False
  assume a: "list_all char_isdecimal s"
  from False a have "\<not> char_isspace (hd s)"
    by (cases s) (auto simp: decimal_not_space)
  then have 1: "dropWhile char_isspace s = s" using False by (simp add: dropWhile_first)
  from False a have "\<not> char_isspace (hd (rev s))"
    by (simp add: hd_rev list_all_iff decimal_not_space)
  then have "dropWhile char_isspace (rev s) = rev s" using False by (simp add: dropWhile_first)
  with 1 show ?thesis by (simp add: strip_def)
qed

lemma py_int_str_nat: "py_int (str_nat n) = Inr (int n)"
proof -
  obtain c cs where s: "str_nat n = c # cs"
    using str_nat_decimal [of n] by (cases "str_nat n") auto
  have "char_isdecimal c" using str_nat_decimal [of n] s by simp
  then have "c \<noteq> CHR ''-''" "c \<noteq> CHR ''+''" by (auto simp: char_isdecimal_def)
  moreover have "strip (str_nat n) = c # cs"
    using strip_decimal [of "str_nat n"] str_nat_decimal [of n] s by simp
  moreover have "int_literal (c # cs) = Some n" using int_literal_str_nat [of n] s by simp
  ultimately show ?thesis by (simp add: py_int_def)
qed

lemma isdigit_str_nat: "isdigit (str_nat n)"
  using str_nat_decimal [of n] by (auto simp: isdigit_def char_isdigit_def list_all_iff)

lemma decimal_not_markup:
  "char_isdecimal c \<Longrightarrow> c \<notin> {CHR ''<'', CHR ''>'', CHR '':'', CHR ''!'', CHR ''&''}"
  by (auto simp: char_isdecimal_def)

lemma str_int_chars:
  "str_int i \<noteq> [] \<and> (\<forall>c \<in> set (str_int i). c \<notin> {CHR ''<'', CHR ''>'', CHR '':'', CHR ''!'', CHR ''&''})"
  using str_nat_decimal [of "nat i"] str_nat_decimal [of "nat (- i)"] decimal_not_markup
  by (auto simp: str_int_def list_all_iff)

lemma param_tail_closed:
  "CHR ''<'' \<notin> set p \<Longrightarrow> CHR ''>'' \<notin> set p \<Longrightarrow> param_tail (p @ CHR ''>'' # r) = Some (p, r)"
  by (induction p) auto

lemma match_param_closed:
  "p \<noteq> [] \<Longrightarrow> CHR ''<'' \<notin> set p \<Longrightarrow> CHR ''>'' \<notin> set p \<Longrightarrow>
   match_param (p @ CHR ''>'' # r) = Some (p, r)"
  by (cases p) (auto simp: param_tail_closed)

subsection \<open>Matching with further input\<close>

lemma param_tail_None_append:
  "param_tail s = None \<Longrightarrow> r = [] \<or> hd r = CHR ''<'' \<Longrightarrow> param_tail (s @ r) = None"
proof (induction s)
  case Nil
  then show ?case by (cases r) auto
next
  case (Cons c cs)
  then show ?case by (auto split: if_splits option.splits)
qed

lemma match_param_None_append:
  "match_param s = None \<Longrightarrow> r = [] \<or> hd r = CHR ''<'' \<Longrightarrow> match_param (s @ r) = None"
proof (cases s)
  case Nil
  assume "r = [] \<or> hd r = CHR ''<''"
  with Nil show ?thesis by (cases r) auto
next
  case (Cons c cs)
  assume a: "match_param s = None" and r: "r = [] \<or> hd r = CHR ''<''"
  show ?thesis
  proof (cases "c = CHR ''<''")
    case True
    with Cons show ?thesis by simp
  next
    case False
    with a Cons have "param_tail cs = None" by (auto split: option.splits)
    then have "param_tail (cs @ r) = None" using r by (rule param_tail_None_append)
    with Cons False show ?thesis by simp
  qed
qed

lemma strip_prefix_Some_append:
  "strip_prefix t s = Some q \<Longrightarrow> strip_prefix t (s @ r) = Some (q @ r)"
  by (induction t s rule: strip_prefix.induct) (auto split: if_splits)

lemma strip_prefix_None_append:
  "strip_prefix t s = None \<Longrightarrow> CHR ''<'' \<notin> set t \<Longrightarrow> r = [] \<or> hd r = CHR ''<'' \<Longrightarrow>
   strip_prefix t (s @ r) = None"
proof (induction t s rule: strip_prefix.induct)
  case (1 s)
  then show ?case by simp
next
  case (2 p ps)
  then show ?case by (cases r) auto
next
  case (3 p ps c cs)
  then show ?case by (auto split: if_splits)
qed

lemma match_types_None_append:
  "match_types ts s = None \<Longrightarrow> \<forall>t \<in> set ts. CHR ''<'' \<notin> set t \<Longrightarrow>
   r = [] \<or> hd r = CHR ''<'' \<Longrightarrow> match_types ts (s @ r) = None"
proof (induction ts)
  case Nil
  then show ?case by simp
next
  case (Cons t ts)
  show ?case
  proof (cases "strip_prefix t s")
    case None
    then have "strip_prefix t (s @ r) = None"
      using Cons.prems by (simp add: strip_prefix_None_append)
    with None Cons show ?thesis by simp
  next
    case (Some q)
    then have q: "strip_prefix t (s @ r) = Some (q @ r)" by (rule strip_prefix_Some_append)
    from Some Cons.prems(1) have "match_param q = None"
      by (auto split: option.splits)
    then have "match_param (q @ r) = None"
      using Cons.prems(3) by (rule match_param_None_append)
    with Some q Cons show ?thesis by (auto split: option.splits)
  qed
qed

lemma match_at_None_append:
  "match_at (c # cs) = None \<Longrightarrow> r = [] \<or> hd r = CHR ''<'' \<Longrightarrow> match_at (c # cs @ r) = None"
proof (cases "c = CHR ''<''")
  case True
  assume "match_at (c # cs) = None" and r: "r = [] \<or> hd r = CHR ''<''"
  with True have "match_types type_alternatives cs = None" by simp
  moreover have "\<forall>t \<in> set type_alternatives. CHR ''<'' \<notin> set t"
    by (simp add: type_alternatives_def)
  ultimately have "match_types type_alternatives (cs @ r) = None"
    using r by (rule match_types_None_append)
  with True show ?thesis by simp
next
  case False
  then show ?thesis by simp
qed

lemma finditer_plain:
  "plain_text t \<Longrightarrow> r = [] \<or> hd r = CHR ''<'' \<Longrightarrow> finditer p (t @ r) = finditer (p @ t) r"
proof (induction t arbitrary: p)
  case Nil
  then show ?case by simp
next
  case (Cons c cs)
  then have "match_at (c # cs @ r) = None"
    using match_at_None_append [of c cs r] by simp
  with Cons show ?case by simp
qed

lemma tokens_from_plain:
  "plain_text t \<Longrightarrow> r = [] \<or> hd r = CHR ''<'' \<Longrightarrow>
   tokens_from api p (t @ r) = tokens_from api (p @ t) r"
  by (simp add: tokens_from_def finditer_plain)

lemma tokens_from_Nil: "tokens_from api p [] = Inr (construct_text api p)"
  by (simp add: tokens_from_def)

lemma tokens_from_match:
  assumes "match_at (g @ r) = Some (t, param, r)" and "g \<noteq> []"
    and "construct_match api t param = Inr [seg]"
    and "tokens_from api [] r = Inr rest"
  shows "tokens_from api p (g @ r) = Inr (construct_text api p @ seg # rest)"
proof -
  obtain c cs where g: "g @ r = c # cs" using assms(2) by (cases g) auto
  obtain ms tail where f: "finditer [] r = (ms, tail)" by (cases "finditer [] r")
  with assms(4) obtain segs where l: "construct_loop api ms = Inr segs"
    and rest: "rest = segs @ construct_text api tail"
    by (auto simp: tokens_from_def split: sum.splits)
  have "finditer p (c # cs) = ((p, t, param) # ms, tail)"
    using assms(1) g f by simp
  then show ?thesis
    using g l rest assms(3) by (simp add: tokens_from_def)
qed

subsection \<open>The match of a rendered segment\<close>

lemma str_split_none: "sep \<notin> set s \<Longrightarrow> str_split sep s = [s]"
  by (induction s) auto

lemma str_split_one:
  "sep \<notin> set a \<Longrightarrow> sep \<notin> set b \<Longrightarrow> str_split sep (a @ sep # b) = [a, b]"
  by (induction a) (auto simp: str_split_none)

lemma match_at_mention_user:
  assumes "p \<noteq> []" "CHR ''<'' \<notin> set p" "CHR ''>'' \<notin> set p" "hd p \<noteq> CHR ''!''" "hd p \<noteq> CHR ''&''"
  shows "match_at (''<@'' @ p @ ''>'' @ r) = Some (''@'', p, r)"
proof -
  obtain c cs where p: "p = c # cs" using assms(1) by (cases p) auto
  have "match_param (p @ CHR ''>'' # r) = Some (p, r)"
    using assms by (simp add: match_param_closed)
  then show ?thesis using assms(4,5) p by (simp add: type_alternatives_def)
qed

lemma match_at_mention_role:
  assumes "p \<noteq> []" "CHR ''<'' \<notin> set p" "CHR ''>'' \<notin> set p"
  shows "match_at (''<@&'' @ p @ ''>'' @ r) = Some (''@&'', p, r)"
proof -
  have "match_param (p @ CHR ''>'' # r) = Some (p, r)"
    using assms by (simp add: match_param_closed)
  then show ?thesis by (simp add: type_alternatives_def)
qed

lemma match_at_mention_channel:
  assumes "p \<noteq> []" "CHR ''<'' \<notin> set p" "CHR ''>'' \<notin> set p"
  shows "match_at (''<#'' @ p @ ''>'' @ r) = Some (''#'', p, r)"
proof -
  have "match_param (p @ CHR ''>'' # r) = Some (p, r)"
    using assms by (simp add: match_param_closed)
  then show ?thesis by (simp add: type_alternatives_def)
qed

lemma match_at_colon:
  assumes "p \<noteq> []" "CHR ''<'' \<notin> set p" "CHR ''>'' \<notin> set p"
  shows "match_at (''<:'' @ p @ ''>'' @ r) = Some ('':'', p, r)"
    and "match_at (''<a:'' @ p @ ''>'' @ r) = Some (''a:'', p, r)"
    and "match_at (''<t:'' @ p @ ''>'' @ r) = Some (''t:'', p, r)"
proof -
  have "match_param (p @ CHR ''>'' # r) = Some (p, r)"
    using assms by (simp add: match_param_closed)
  then show "match_at (''<:'' @ p @ ''>'' @ r) = Some ('':'', p, r)"
    and "match_at (''<a:'' @ p @ ''>'' @ r) = Some (''a:'', p, r)"
    and "match_at (''<t:'' @ p @ ''>'' @ r) = Some (''t:'', p, r)"
    by (simp_all add: type_alternatives_def)
qed

lemma segment_match:
  assumes "roundtrip_segment api seg" and "\<forall>t. seg \<noteq> TextSegment t"
  shows "\<exists>t p g. str_segment seg = CHR ''<'' # g
          \<and> (\<forall>r. match_at (str_segment seg @ r) = Some (t, p, r))
          \<and> construct_match api t p = Inr [seg]"
proof (cases seg)
  case (MentionUserSegment i)
  let ?p = "str_int i"
  have c: "?p \<noteq> []" "CHR ''<'' \<notin> set ?p" "CHR ''>'' \<notin> set ?p" "hd ?p \<noteq> CHR ''!''" "hd ?p \<noteq> CHR ''&''"
    using str_int_chars [of i] by (auto simp: hd_in_set)
  have "\<forall>r. match_at (str_segment seg @ r) = Some (''@'', ?p, r)"
    using match_at_mention_user [OF c] MentionUserSegment by simp
  moreover have "construct_match api ''@'' ?p = Inr [seg]"
    using assms(1) MentionUserSegment
    by (simp add: construct_match_def MessageSegment_mention_user_def)
  ultimately show ?thesis using MentionUserSegment by auto
next
  case (MentionRoleSegment i)
  let ?p = "str_int i"
  have c: "?p \<noteq> []" "CHR ''<'' \<notin> set ?p" "CHR ''>'' \<notin> set ?p"
    using str_int_chars [of i] by auto
  have "\<forall>r. match_at (str_segment seg @ r) = Some (''@&'', ?p, r)"
    using match_at_mention_role [OF c] MentionRoleSegment by simp
  moreover have "construct_match api ''@&'' ?p = Inr [seg]"
    using assms(1) MentionRoleSegment
    by (simp add: construct_match_def MessageSegment_mention_role_def)
  ultimately show ?thesis using MentionRoleSegment by auto
next
  case (MentionChannelSegment i)
  let ?p = "str_int i"
  have c: "?p \<noteq> []" "CHR ''<'' \<notin> set ?p" "CHR ''>'' \<notin> set ?p"
    using str_int_chars [of i] by auto
  have "\<forall>r. match_at (str_segment seg @ r) = Some (''#'', ?p, r)"
    using match_at_mention_channel [OF c] MentionChannelSegment by simp
  moreover have "construct_match api ''#'' ?p = Inr [seg]"
    using assms(1) MentionChannelSegment
    by (simp add: construct_match_def MessageSegment_mention_channel_def)
  ultimately show ?thesis using MentionChannelSegment by auto
next
  case (CustomEmojiSegment name emoji_id animated)
  let ?p = "name @ CHR '':'' # emoji_id"
  from assms(1) CustomEmojiSegment obtain b where b: "animated = Some b"
    and free: "markup_free name" "markup_free emoji_id"
    by auto
  have c: "?p \<noteq> []" "CHR ''<'' \<notin> set ?p" "CHR ''>'' \<notin> set ?p"
    using free by (auto simp: markup_free_def)
  have split: "str_split CHR '':'' ?p = [name, emoji_id]"
    using free by (simp add: str_split_one markup_free_def)
  show ?thesis
  proof (cases b)
    case True
    have "\<forall>r. match_at (str_segment seg @ r) = Some (''a:'', ?p, r)"
      using match_at_colon(2) [OF c] CustomEmojiSegment b True by simp
    moreover have "construct_match api ''a:'' ?p = Inr [seg]"
      using CustomEmojiSegment b True split
      by (simp add: construct_match_def MessageSegment_custom_emoji_def)
    ultimately show ?thesis using CustomEmojiSegment b True by auto
  next
    case False
    have "\<forall>r. match_at (str_segment seg @ r) = Some ('':'', ?p, r)"
      using match_at_colon(1) [OF c] CustomEmojiSegment b False by simp
    moreover have "construct_match api '':'' ?p = Inr [seg]"
      using CustomEmojiSegment b False split
      by (simp add: construct_match_def MessageSegment_custom_emoji_def)
    ultimately show ?thesis using CustomEmojiSegment b False by auto
  qed
next
  case (TimestampSegment t style)
  from assms(1) TimestampSegment obtain v where v: "style = Some v"
    and t: "0 \<le> t" and mem: "v \<in> set (style_values api)" and free: "markup_free v"
    by (auto split: option.splits)
  let ?d = "str_nat (nat t)"
  let ?p = "?d @ CHR '':'' # v"
  have si: "str_int t = ?d" using t by (simp add: str_int_def)
  have d: "CHR ''<'' \<notin> set ?d" "CHR ''>'' \<notin> set ?d" "CHR '':'' \<notin> set ?d"
    using str_int_chars [of t] si by auto
  have c: "?p \<noteq> []" "CHR ''<'' \<notin> set ?p" "CHR ''>'' \<notin> set ?p"
    using free d by (auto simp: markup_free_def)
  have split: "str_split CHR '':'' ?p = [?d, v]"
    using free d by (simp add: str_split_one markup_free_def)
  have "\<forall>r. match_at (str_segment seg @ r) = Some (''t:'', ?p, r)"
    using match_at_colon(3) [OF c] TimestampSegment v si by simp
  moreover have "construct_match api ''t:'' ?p = Inr [seg]"
    using TimestampSegment v split t mem
    by (simp add: construct_match_def MessageSegment_timestamp_def isdigit_str_nat
        py_int_str_nat TimeStampStyle_def)
  ultimately show ?thesis using TimestampSegment v si by auto
qed (use assms in auto)

subsection \<open>The round trip\<close>

lemma extract_content_roundtrip_Cons:
  "roundtrip_segment api seg \<Longrightarrow>
   Message_extract_content (seg # m) = str_segment seg @ Message_extract_content m"
  by (cases seg) (simp_all add: Message_extract_content_def)

lemma content_follows:
  assumes "list_all (roundtrip_segment api) m" and "\<forall>t m'. m \<noteq> TextSegment t # m'"
  shows "Message_extract_content m = [] \<or> hd (Message_extract_content m) = CHR ''<''"
proof (cases m)
  case Nil
  then show ?thesis by (simp add: Message_extract_content_def)
next
  case (Cons seg m')
  with assms have "roundtrip_segment api seg" "\<forall>t. seg \<noteq> TextSegment t" by auto
  then obtain g where "str_segment seg = CHR ''<'' # g"
    using segment_match [of api seg] by blast
  with Cons \<open>roundtrip_segment api seg\<close> show ?thesis
    by (simp add: extract_content_roundtrip_Cons)
qed

lemma no_adjacent_text_tail: "no_adjacent_text (seg # m) \<Longrightarrow> no_adjacent_text m"
  by (cases "seg # m" rule: no_adjacent_text.cases) auto

lemma no_adjacent_text_after_text:
  "no_adjacent_text (TextSegment t # m) \<Longrightarrow> m \<noteq> TextSegment t' # m'"
  by auto

lemma tokens_from_roundtrip:
  "list_all (roundtrip_segment api) m \<Longrightarrow> no_adjacent_text m \<Longrightarrow>
   p = [] \<or> (\<forall>t m'. m \<noteq> TextSegment t # m') \<Longrightarrow>
   tokens_from api p (Message_extract_content m) = Inr (construct_text api p @ m)"
proof (induction m arbitrary: p)
  case Nil
  then show ?case by (simp add: Message_extract_content_def tokens_from_Nil)
next
  case (Cons seg m)
  have ok: "roundtrip_segment api seg" "list_all (roundtrip_segment api) m"
    using Cons.prems(1) by simp_all
  have content: "Message_extract_content (seg # m) = str_segment seg @ Message_extract_content m"
    using ok(1) by (rule extract_content_roundtrip_Cons)
  show ?case
  proof (cases "\<exists>t. seg = TextSegment t")
    case True
    then obtain t where seg: "seg = TextSegment t" by blast
    with Cons.prems(3) have p: "p = []" by simp
    from seg Cons.prems(2) have next_seg: "\<forall>t' m'. m \<noteq> TextSegment t' # m'"
      using no_adjacent_text_after_text by blast
    have adj: "no_adjacent_text m"
      using Cons.prems(2) by (rule no_adjacent_text_tail)
    from seg ok(1) have t: "t \<noteq> []" "plain_text t" "unescape api t = t" by simp_all
    have "tokens_from api p (t @ Message_extract_content m)
            = tokens_from api t (Message_extract_content m)"
      using tokens_from_plain [OF t(2) content_follows [OF ok(2) next_seg], of api p] p by simp
    also have "\<dots> = Inr (construct_text api t @ m)"
      using Cons.IH [OF ok(2) adj, of t] next_seg by simp
    finally show ?thesis using content seg t p by (simp add: construct_text_def MessageSegment_text_def)
  next
    case False
    then have nt: "\<forall>t. seg \<noteq> TextSegment t" by simp
    have adj: "no_adjacent_text m"
      using Cons.prems(2) by (rule no_adjacent_text_tail)
    obtain t q g where g: "str_segment seg = CHR ''<'' # g"
      and m: "\<forall>r. match_at (str_segment seg @ r) = Some (t, q, r)"
      and c: "construct_match api t q = Inr [seg]"
      using segment_match [OF ok(1) nt] by blast
    have rest: "tokens_from api [] (Message_extract_content m) = Inr m"
      using Cons.IH [OF ok(2) adj, of "[]"] by (simp add: construct_text_def)
    have "str_segment seg \<noteq> []" using g by simp
    then show ?thesis
      using tokens_from_match [OF _ _ c rest, of "str_segment seg" p] m content by simp
  qed
qed

text \<open>
  Claim C3, amended. Let every segment of a message be of one of these forms: a text
  segment that is not empty, that \<open>unescape\<close> leaves unchanged and in which no match of the
  pattern starts; a mention of a user, a role or a channel whose identifier \<open>Snowflake\<close> reads
  back from its decimal text; a custom emoji whose animated flag is a boolean and whose name
  and identifier hold none of \<open><\<close>, \<open>>\<close> and \<open>:\<close>; a timestamp with seconds that are not negative
  and a style that is the value of a member of the enumeration, is not empty and holds none
  of these three characters. Let no two text segments be adjacent. Then tokenizing the flattened text of
  the message returns the message.
\<close>

theorem construct_extract_content_roundtrip:
  "list_all (roundtrip_segment api) m \<Longrightarrow> no_adjacent_text m \<Longrightarrow>
   Message_construct api (Message_extract_content m) = Inr m"
  using tokens_from_roundtrip [of api m "[]"]
  by (simp add: construct_tokens_from construct_text_def)

theorem construct_extract_content_roundtrip_witness:
  "list_all (roundtrip_segment std_api)
     [TextSegment ''hi '', MentionUserSegment 42, MentionRoleSegment 7,
      CustomEmojiSegment ''wave'' ''15'' (Some True), TextSegment '' at '',
      TimestampSegment 1700000000 (Some ''R''), MentionChannelSegment 3]
   \<and> no_adjacent_text
     [TextSegment ''hi '', MentionUserSegment 42, MentionRoleSegment 7,
      CustomEmojiSegment ''wave'' ''15'' (Some True), TextSegment '' at '',
      TimestampSegment 1700000000 (Some ''R''), MentionChannelSegment 3]
   \<and> Message_construct std_api
       (Message_extract_content
          [TextSegment ''hi '', MentionUserSegment 42, MentionRoleSegment 7,
           CustomEmojiSegment ''wave'' ''15'' (Some True), TextSegment '' at '',
           TimestampSegment 1700000000 (Some ''R''), MentionChannelSegment 3])
     = Inr [TextSegment ''hi '', MentionUserSegment 42, MentionRoleSegment 7,
            CustomEmojiSegment ''wave'' ''15'' (Some True), TextSegment '' at '',
            TimestampSegment 1700000000 (Some ''R''), MentionChannelSegment 3]"
proof -
  have h1: "list_all (roundtrip_segment std_api)
     [TextSegment ''hi '', MentionUserSegment 42, MentionRoleSegment 7,
      CustomEmojiSegment ''wave'' ''15'' (Some True), TextSegment '' at '',
      TimestampSegment 1700000000 (Some ''R''), MentionChannelSegment 3]"
    by code_simp
  have h2: "no_adjacent_text
     [TextSegment ''hi '', MentionUserSegment 42, MentionRoleSegment 7,
      CustomEmojiSegment ''wave'' ''15'' (Some True), TextSegment '' at '',
      TimestampSegment 1700000000 (Some ''R''), MentionChannelSegment 3]"
    by simp
  show ?thesis
    using h1 h2 construct_extract_content_roundtrip [OF h1 h2] by blast
qed

subsection \<open>Where the round trip fails\<close>

lemma mention_everyone_comes_back_as_text:
  "Message_construct api (Message_extract_content [MentionEveryoneSegment])
     = Inr [TextSegment (unescape api ''@everyone'')]"
  by (simp add: Message_extract_content_def Message_construct_def construct_text_def
      MessageSegment_text_def)

text \<open>
  Claim C3 says that tokenizing the flattened text of a message of text, mention, custom
  emoji, timestamp and \<open>mention_everyone\<close> segments returns the message. The pattern has no
  form for \<open>@everyone\<close>: a \<open>mention_everyone\<close> segment comes back as a text segment.
\<close>

theorem mention_everyone_does_not_roundtrip:
  "Message_construct std_api (Message_extract_content [MentionEveryoneSegment])
     = Inr [TextSegment ''@everyone'']
   \<and> Message_construct std_api (Message_extract_content [MentionEveryoneSegment])
     \<noteq> Inr [MentionEveryoneSegment]"
  by code_simp

text \<open>Further messages of the kinds of the claim that do not come back: text that holds
  markup, two text segments in a row, an emoji without the animated flag, and a timestamp
  without a style (see claim C1).\<close>

lemma roundtrip_failures:
  "Message_construct std_api (Message_extract_content [TextSegment ''<@1>''])
     = Inr [MentionUserSegment 1]"
  "Message_construct std_api (Message_extract_content [TextSegment ''a'', TextSegment ''b''])
     = Inr [TextSegment ''ab'']"
  "Message_construct std_api (Message_extract_content [CustomEmojiSegment ''x'' ''1'' None])
     = Inr [CustomEmojiSegment ''x'' ''1'' (Some False)]"
  "Message_construct std_api (Message_extract_content [TimestampSegment 5 None])
     = Inr [TextSegment ''<t:5>'']"
  by code_simp+

end
